theory Spec2Isabelle
  imports Complex_Main
begin

section \<open>JavaScript values seen by the provider\<close>

text \<open>
  A JavaScript number is a double. No arithmetic is done on numbers by the provider: they
  are stored, forwarded and tested for truthiness only, so a number is a rational, or one
  of the three special values. Both zeros are \<open>Finite 0\<close>.
\<close>

datatype jsnumber = Finite rat | NaN | PosInfinity | NegInfinity

text \<open>
  \<open>EvaluationContextValue\<close> of the OpenFeature SDK: a primitive value (null, boolean, string,
  number), a Date, a nested structure or an array. \<open>toPrimitiveRecord\<close> also tests for
  functions, so a function value is part of the domain.
\<close>

datatype EvaluationContextValue =
    CNull
  | CBool bool
  | CStr string
  | CNum jsnumber
  | CDate int
  | CObject "(string \<times> EvaluationContextValue) list"
  | CArray "EvaluationContextValue list"
  | CFunction

text \<open>The \<open>typeof\<close> operator on these values.\<close>

fun typeof_ctx :: "EvaluationContextValue \<Rightarrow> string" where
  "typeof_ctx CNull = ''object''"
| "typeof_ctx (CBool b) = ''boolean''"
| "typeof_ctx (CStr s) = ''string''"
| "typeof_ctx (CNum n) = ''number''"
| "typeof_ctx (CDate d) = ''object''"
| "typeof_ctx (CObject fields) = ''object''"
| "typeof_ctx (CArray elems) = ''object''"
| "typeof_ctx CFunction = ''function''"

text \<open>
  The values a flag evaluation can produce and a caller can pass as a default
  (the type parameter \<open>T\<close> of \<open>resolveEvaluation\<close> is erased at run time).
\<close>

datatype jsval =
    JUndefined
  | JNull
  | JBool bool
  | JNum jsnumber
  | JStr string
  | JObject "(string \<times> jsval) list"
  | JArray "jsval list"

text \<open>JavaScript truthiness, as tested by \<open>||\<close>.\<close>

fun truthy :: "jsval \<Rightarrow> bool" where
  "truthy JUndefined = False"
| "truthy JNull = False"
| "truthy (JBool b) = b"
| "truthy (JNum n) = (n \<noteq> NaN \<and> n \<noteq> Finite 0)"
| "truthy (JStr s) = (s \<noteq> [])"
| "truthy (JObject fields) = True"
| "truthy (JArray elems) = True"

text \<open>\<open>a || b\<close> and \<open>a ?? b\<close>.\<close>

definition js_or :: "jsval \<Rightarrow> jsval \<Rightarrow> jsval" where
  "js_or a b = (if truthy a then a else b)"

definition nullish :: "jsval \<Rightarrow> jsval \<Rightarrow> jsval" where
  "nullish a b = (if a = JUndefined \<or> a = JNull then b else a)"

section \<open>toPrimitiveRecord\<close>

text \<open>
  A \<open>Record<string, EvaluationContextValue>\<close> is read through \<open>Object.entries\<close>: the list
  of its entries, one per key. The output object is a map from keys to values: its own
  properties.
\<close>

type_synonym entries = "(string \<times> EvaluationContextValue) list"
type_synonym primitive_record = "string \<rightharpoonup> EvaluationContextValue"

definition keeps :: "EvaluationContextValue \<Rightarrow> bool" where
  "keeps v \<longleftrightarrow>
     v \<noteq> CNull \<and> typeof_ctx v \<noteq> ''object'' \<and> typeof_ctx v \<noteq> ''function''"

text \<open>
  \<open>output[key] = value\<close> on an object created by \<open>{}\<close>. The key \<open>__proto__\<close> is an accessor
  inherited from \<open>Object.prototype\<close>: its setter changes the prototype when the value is an
  object or null and ignores every other value, and in no case creates an own property.
  Every other key creates or overwrites an own property.
\<close>

definition assign_property ::
  "primitive_record \<Rightarrow> string \<Rightarrow> EvaluationContextValue \<Rightarrow> primitive_record" where
  "assign_property output key v = (if key = ''__proto__'' then output else output(key \<mapsto> v))"

fun toPrimitiveRecord_loop :: "entries \<Rightarrow> primitive_record \<Rightarrow> primitive_record" where
  "toPrimitiveRecord_loop [] output = output"
| "toPrimitiveRecord_loop ((key, v) # rest) output =
     toPrimitiveRecord_loop rest (if keeps v then assign_property output key v else output)"

definition toPrimitiveRecord :: "entries \<Rightarrow> primitive_record" where
  "toPrimitiveRecord input = toPrimitiveRecord_loop input Map.empty"

text \<open>The primitives of the Flagship SDK: string, number or boolean.\<close>

fun is_primitive :: "EvaluationContextValue \<Rightarrow> bool" where
  "is_primitive (CStr s) = True"
| "is_primitive (CNum n) = True"
| "is_primitive (CBool b) = True"
| "is_primitive v = False"

section \<open>The Flagship SDK as the provider sees it\<close>

datatype FSFetchStatus = FETCH_REQUIRED | FETCHING | FETCHED | PANIC

datatype FSSdkStatus = SDK_NOT_INITIALIZED | SDK_INITIALIZING | SDK_INITIALIZED | SDK_FAILED

text \<open>An exception thrown by a synchronous call.\<close>

datatype thrown = Thrown string

text \<open>
  A flag returned by \<open>getFlag\<close>: the method \<open>getValue(defaultValue)\<close> returns a value or
  throws (\<open>Inl\<close>), and the property \<open>metadata\<close> is an object, a map from property names to
  values. Reading a property that the object does not have gives \<open>undefined\<close>.
\<close>

record FSFlag =
  getValue :: "jsval \<Rightarrow> thrown + jsval"
  metadata :: "string \<rightharpoonup> jsval"

definition get_prop :: "(string \<rightharpoonup> jsval) \<Rightarrow> string \<Rightarrow> jsval" where
  "get_prop obj name = (case obj name of None \<Rightarrow> JUndefined | Some v \<Rightarrow> v)"

text \<open>
  The fields of a \<open>Visitor\<close> that the provider reads (\<open>visitorId\<close>, \<open>hasConsented\<close>,
  \<open>flagsStatus.status\<close>), the attribute bag the SDK keeps for it, and the method
  \<open>getFlag(key)\<close>, which returns a flag or \<open>undefined\<close>, or throws (\<open>Inl\<close>).
\<close>

record visitor_fields =
  visitorId :: string
  hasConsented :: bool
  flagsStatus :: FSFetchStatus
  attributes :: primitive_record
  getFlag :: "string \<Rightarrow> thrown + FSFlag option"

text \<open>
  A \<open>Visitor\<close> object: its identity as an object (\<open>oid\<close>) and its current fields. A method
  that mutates the visitor changes the fields and keeps the \<open>oid\<close>.
\<close>

record Visitor =
  oid :: nat
  props :: visitor_fields

text \<open>The argument of \<open>Flagship.newVisitor\<close>, as \<open>createVisitor\<close> builds it.\<close>

record NewVisitorArgs =
  nv_hasConsented :: "bool option"
  nv_isAuthenticated :: "bool option"
  nv_visitorId :: "string option"
  nv_context :: primitive_record

datatype rejection = Rejection string

text \<open>
  The SDK is outside the repository: its behaviour is a parameter. \<open>sdk_newVisitor\<close> gives
  the fields of the visitor it creates; \<open>sdk_updateContext\<close> and \<open>sdk_setConsent\<close> are
  synchronous and give the fields after the call; \<open>sdk_start\<close> and \<open>sdk_fetchFlags\<close> are
  promises, which either resolve or reject, and leave a status or fields behind in both
  cases.
\<close>

record Sdk =
  sdk_start :: "string \<Rightarrow> string \<Rightarrow> rejection option \<times> FSSdkStatus"
  sdk_newVisitor :: "NewVisitorArgs \<Rightarrow> visitor_fields"
  sdk_fetchFlags :: "visitor_fields \<Rightarrow> rejection option \<times> visitor_fields"
  sdk_updateContext :: "visitor_fields \<Rightarrow> primitive_record \<Rightarrow> visitor_fields"
  sdk_setConsent :: "visitor_fields \<Rightarrow> bool \<Rightarrow> visitor_fields"

section \<open>The evaluation context\<close>

text \<open>
  \<open>FlagshipContext\<close>: the two reserved fields and the rest, which the code separates by
  \<open>const { fsVisitorInfo, targetingKey, ...userContext } = context\<close>. \<open>createVisitor\<close>
  builds an \<open>fsVisitorInfo\<close> whose \<open>hasConsented\<close> is \<open>undefined\<close>, so the field is optional here.
\<close>

record VisitorInfo =
  vi_hasConsented :: "bool option"
  vi_isAuthenticated :: "bool option"

record FlagshipContext =
  fsVisitorInfo :: "VisitorInfo option"
  targetingKey :: "string option"
  userContext :: entries

section \<open>The provider and its effects\<close>

datatype ProviderEvents = Ready | Error | ConfigurationChanged | Stale

text \<open>
  Every call the provider makes on the SDK, on a visitor or on its event emitter, in the
  order made. \<open>Start envId apiKey fetchNow\<close> is \<open>Flagship.start\<close>; a call on a visitor
  names the visitor by its \<open>oid\<close>.
\<close>

datatype call =
    Start string string bool
  | NewVisitor nat NewVisitorArgs
  | FetchFlags nat
  | SetConsent nat bool
  | UpdateContext nat primitive_record
  | Emit ProviderEvents

text \<open>
  The state: the provider's fields (\<open>_envId\<close>, \<open>_apiKey\<close>, \<open>_visitor\<close>), the global status of
  the SDK, the next free object identity, and the calls made so far.
\<close>

record world =
  envId :: string
  apiKey :: string
  this_visitor :: "Visitor option"
  sdk_status :: FSSdkStatus
  next_object :: nat
  calls :: "call list"

text \<open>An asynchronous method: rejected (\<open>Inl\<close>) or resolved (\<open>Inr\<close>), and the state it leaves.\<close>

type_synonym 'a promise = "(rejection + 'a) \<times> world"

definition log_call :: "call \<Rightarrow> world \<Rightarrow> world" where
  "log_call c w = w\<lparr>calls := calls w @ [c]\<rparr>"

text \<open>\<open>await visitor.fetchFlags()\<close> on a visitor object.\<close>

definition await_fetchFlags :: "Sdk \<Rightarrow> Visitor \<Rightarrow> world \<Rightarrow> rejection option \<times> Visitor \<times> world" where
  "await_fetchFlags sdk visitor w =
     (let (r, fs) = sdk_fetchFlags sdk (props visitor)
      in (r, visitor\<lparr>props := fs\<rparr>, log_call (FetchFlags (oid visitor)) w))"

text \<open>The argument that \<open>createVisitor\<close> passes to \<open>Flagship.newVisitor\<close>.\<close>

definition visitor_args :: "FlagshipContext option \<Rightarrow> NewVisitorArgs" where
  "visitor_args context =
     (let c = (case context of
                 None \<Rightarrow> \<lparr>fsVisitorInfo = Some \<lparr>vi_hasConsented = None, vi_isAuthenticated = None\<rparr>,
                           targetingKey = None, userContext = []\<rparr>
               | Some c \<Rightarrow> c)
      in \<lparr>nv_hasConsented = (case fsVisitorInfo c of None \<Rightarrow> None | Some i \<Rightarrow> vi_hasConsented i),
          nv_isAuthenticated = (case fsVisitorInfo c of None \<Rightarrow> None | Some i \<Rightarrow> vi_isAuthenticated i),
          nv_visitorId = targetingKey c,
          nv_context = toPrimitiveRecord (userContext c)\<rparr>)"

definition createVisitor :: "Sdk \<Rightarrow> FlagshipContext option \<Rightarrow> world \<Rightarrow> Visitor promise" where
  "createVisitor sdk context w =
     (let args = visitor_args context;
          visitor = \<lparr>oid = next_object w, props = sdk_newVisitor sdk args\<rparr>;
          w1 = log_call (NewVisitor (oid visitor) args) (w\<lparr>next_object := Suc (next_object w)\<rparr>);
          (r, visitor', w2) = await_fetchFlags sdk visitor w1
      in case r of Some e \<Rightarrow> (Inl e, w2) | None \<Rightarrow> (Inr visitor', w2))"

text \<open>\<open>this._visitor?.visitorId\<close> and \<open>this._visitor?.hasConsented\<close>.\<close>

definition this_visitorId :: "world \<Rightarrow> string option" where
  "this_visitorId w = map_option (\<lambda>v. visitorId (props v)) (this_visitor w)"

definition this_hasConsented :: "world \<Rightarrow> bool option" where
  "this_hasConsented w = map_option (\<lambda>v. hasConsented (props v)) (this_visitor w)"

text \<open>\<open>this._visitor?.setConsent(c)\<close> and \<open>this._visitor?.updateContext(attrs)\<close>.\<close>

definition call_setConsent :: "Sdk \<Rightarrow> bool \<Rightarrow> world \<Rightarrow> world" where
  "call_setConsent sdk c w =
     (case this_visitor w of
        None \<Rightarrow> w
      | Some v \<Rightarrow> log_call (SetConsent (oid v) c)
                   (w\<lparr>this_visitor := Some (v\<lparr>props := sdk_setConsent sdk (props v) c\<rparr>)\<rparr>))"

definition call_updateContext :: "Sdk \<Rightarrow> primitive_record \<Rightarrow> world \<Rightarrow> world" where
  "call_updateContext sdk attrs w =
     (case this_visitor w of
        None \<Rightarrow> w
      | Some v \<Rightarrow> log_call (UpdateContext (oid v) attrs)
                   (w\<lparr>this_visitor := Some (v\<lparr>props := sdk_updateContext sdk (props v) attrs\<rparr>)\<rparr>))"

text \<open>\<open>fsVisitorInfo?.hasConsented\<close>.\<close>

definition context_hasConsented :: "FlagshipContext \<Rightarrow> bool option" where
  "context_hasConsented context =
     (case fsVisitorInfo context of None \<Rightarrow> None | Some i \<Rightarrow> vi_hasConsented i)"

definition updateVisitorFlags :: "Sdk \<Rightarrow> FlagshipContext \<Rightarrow> world \<Rightarrow> (Visitor option) promise" where
  "updateVisitorFlags sdk context w =
     (if targetingKey context \<noteq> this_visitorId w then
        (case createVisitor sdk (Some context) w of
           (Inl e, w1) \<Rightarrow> (Inl e, w1)
         | (Inr visitor, w1) \<Rightarrow> (Inr (Some visitor), w1\<lparr>this_visitor := Some visitor\<rparr>))
      else
        (let w1 = (case context_hasConsented context of
                     None \<Rightarrow> w
                   | Some c \<Rightarrow> if Some c \<noteq> this_hasConsented w then call_setConsent sdk c w else w);
             w2 = call_updateContext sdk (toPrimitiveRecord (userContext context)) w1
         in case this_visitor w2 of
              None \<Rightarrow> (Inr None, w2)
            | Some v \<Rightarrow>
                if flagsStatus (props v) = FETCH_REQUIRED then
                  (let (r, v', w3) = await_fetchFlags sdk v w2;
                       w4 = w3\<lparr>this_visitor := Some v'\<rparr>
                   in case r of Some e \<Rightarrow> (Inl e, w4) | None \<Rightarrow> (Inr (Some v'), w4))
                else (Inr (Some v), w2)))"

definition initializeSDK :: "Sdk \<Rightarrow> world \<Rightarrow> unit promise" where
  "initializeSDK sdk w =
     (if sdk_status w = SDK_NOT_INITIALIZED then
        (let (r, st) = sdk_start sdk (envId w) (apiKey w);
             w1 = log_call (Start (envId w) (apiKey w) False) (w\<lparr>sdk_status := st\<rparr>)
         in case r of Some e \<Rightarrow> (Inl e, w1) | None \<Rightarrow> (Inr (), w1))
      else (Inr (), w))"

definition initialize :: "Sdk \<Rightarrow> FlagshipContext option \<Rightarrow> world \<Rightarrow> unit promise" where
  "initialize sdk context w =
     (case initializeSDK sdk w of
        (Inl e, w1) \<Rightarrow> (Inl e, w1)
      | (Inr u, w1) \<Rightarrow>
          (case createVisitor sdk context w1 of
             (Inl e, w2) \<Rightarrow> (Inl e, w2)
           | (Inr visitor, w2) \<Rightarrow> (Inr (), log_call (Emit Ready) (w2\<lparr>this_visitor := Some visitor\<rparr>))))"

definition onContextChange :: "Sdk \<Rightarrow> FlagshipContext \<Rightarrow> FlagshipContext \<Rightarrow> world \<Rightarrow> unit promise" where
  "onContextChange sdk oldContext newContext w =
     (case updateVisitorFlags sdk newContext w of
        (Inl e, w1) \<Rightarrow> (Inl e, w1)
      | (Inr v, w1) \<Rightarrow> (Inr (), w1))"

section \<open>Flag resolution\<close>

record ResolutionDetails =
  res_value :: jsval
  res_flagMetadata :: "(string \<rightharpoonup> jsval) option"

text \<open>
  \<open>resolveEvaluation\<close> has no \<open>try\<close>: an exception thrown by \<open>getFlag\<close> or by \<open>getValue\<close>
  leaves it at once, so the result is the exception (\<open>Inl\<close>) or the details (\<open>Inr\<close>).
\<close>

definition resolveEvaluation :: "world \<Rightarrow> string \<Rightarrow> jsval \<Rightarrow> thrown + ResolutionDetails" where
  "resolveEvaluation w flagKey defaultValue =
     (case (case this_visitor w of None \<Rightarrow> Inr None | Some v \<Rightarrow> getFlag (props v) flagKey) of
        Inl e \<Rightarrow> Inl e
      | Inr flag \<Rightarrow>
          (case (case flag of None \<Rightarrow> Inr JUndefined | Some f \<Rightarrow> getValue f defaultValue) of
             Inl e \<Rightarrow> Inl e
           | Inr flagValue \<Rightarrow>
               (let flagMetadata = (case flag of None \<Rightarrow> None | Some f \<Rightarrow> Some (metadata f));
                    sanitizedFlagMetadata =
                      (case flagMetadata of
                         Some m \<Rightarrow> Some (m(''slug'' \<mapsto> nullish (get_prop m ''slug'') (JStr [])))
                       | None \<Rightarrow> None)
                in Inr \<lparr>res_value = js_or flagValue defaultValue,
                        res_flagMetadata = sanitizedFlagMetadata\<rparr>)))"

definition resolveBooleanEvaluation :: "world \<Rightarrow> string \<Rightarrow> bool \<Rightarrow> thrown + ResolutionDetails" where
  "resolveBooleanEvaluation w flagKey defaultValue = resolveEvaluation w flagKey (JBool defaultValue)"

definition resolveStringEvaluation :: "world \<Rightarrow> string \<Rightarrow> string \<Rightarrow> thrown + ResolutionDetails" where
  "resolveStringEvaluation w flagKey defaultValue = resolveEvaluation w flagKey (JStr defaultValue)"

definition resolveNumberEvaluation :: "world \<Rightarrow> string \<Rightarrow> jsnumber \<Rightarrow> thrown + ResolutionDetails" where
  "resolveNumberEvaluation w flagKey defaultValue = resolveEvaluation w flagKey (JNum defaultValue)"

definition resolveObjectEvaluation :: "world \<Rightarrow> string \<Rightarrow> jsval \<Rightarrow> thrown + ResolutionDetails" where
  "resolveObjectEvaluation w flagKey defaultValue = resolveEvaluation w flagKey defaultValue"

section \<open>Reading the calls of one invocation\<close>

definition calls_during :: "world \<Rightarrow> world \<Rightarrow> call list" where
  "calls_during w w' = drop (length (calls w)) (calls w')"

fun is_NewVisitor :: "call \<Rightarrow> bool" where
  "is_NewVisitor (NewVisitor i a) = True"
| "is_NewVisitor c = False"

fun is_FetchFlags :: "call \<Rightarrow> bool" where
  "is_FetchFlags (FetchFlags i) = True"
| "is_FetchFlags c = False"

fun is_SetConsent :: "call \<Rightarrow> bool" where
  "is_SetConsent (SetConsent i b) = True"
| "is_SetConsent c = False"

fun is_UpdateContext :: "call \<Rightarrow> bool" where
  "is_UpdateContext (UpdateContext i a) = True"
| "is_UpdateContext c = False"

fun is_Ready :: "call \<Rightarrow> bool" where
  "is_Ready (Emit Ready) = True"
| "is_Ready c = False"

definition count :: "(call \<Rightarrow> bool) \<Rightarrow> call list \<Rightarrow> nat" where
  "count P cs = length (filter P cs)"

section \<open>Concrete inputs\<close>

text \<open>
  An SDK like the one the repository's tests mock: \<open>start\<close> and \<open>fetchFlags\<close> resolve, a new
  visitor takes its identity and consent from the arguments, and a context update marks the
  flags as stale.
\<close>

definition mock_sdk :: Sdk where
  "mock_sdk =
     \<lparr>sdk_start = (\<lambda>env key. (None, SDK_INITIALIZED)),
      sdk_newVisitor = (\<lambda>args.
         \<lparr>visitorId = (case nv_visitorId args of None \<Rightarrow> ''test-visitor'' | Some k \<Rightarrow> k),
          hasConsented = (case nv_hasConsented args of None \<Rightarrow> False | Some c \<Rightarrow> c),
          flagsStatus = FETCH_REQUIRED,
          attributes = nv_context args,
          getFlag = (\<lambda>k. Inr None)\<rparr>),
      sdk_fetchFlags = (\<lambda>fs. (None, fs\<lparr>flagsStatus := FETCHED\<rparr>)),
      sdk_updateContext = (\<lambda>fs attrs.
         fs\<lparr>flagsStatus := FETCH_REQUIRED, attributes := attributes fs ++ attrs\<rparr>),
      sdk_setConsent = (\<lambda>fs c. fs\<lparr>hasConsented := c\<rparr>)\<rparr>"

text \<open>The same SDK with a flag fetch that rejects.\<close>

definition rejecting_sdk :: Sdk where
  "rejecting_sdk = mock_sdk\<lparr>sdk_fetchFlags := (\<lambda>fs. (Some (Rejection ''fetch failed''), fs))\<rparr>"

text \<open>A provider just constructed, and one whose SDK has started but which has no visitor.\<close>

definition world0 :: world where
  "world0 = \<lparr>envId = ''env-test-id'', apiKey = ''api-test-key'', this_visitor = None,
             sdk_status = SDK_NOT_INITIALIZED, next_object = 0, calls = []\<rparr>"

definition started_world :: world where
  "started_world = world0\<lparr>sdk_status := SDK_INITIALIZED\<rparr>"

definition example_bag :: entries where
  "example_bag = [(''age'', CNum (Finite 30)), (''nick'', CNull), (''cb'', CFunction),
                  (''address'', CObject [(''city'', CStr ''Paris'')]), (''vip'', CBool True)]"

text \<open>
  An attribute bag with an own property named \<open>__proto__\<close>, as
  \<open>JSON.parse('{"__proto__": "x", "age": 30}')\<close> gives.
\<close>

definition proto_bag :: entries where
  "proto_bag = [(''__proto__'', CStr ''x''), (''age'', CNum (Finite 30))]"

definition user_123 :: FlagshipContext where
  "user_123 = \<lparr>fsVisitorInfo = Some \<lparr>vi_hasConsented = Some True, vi_isAuthenticated = None\<rparr>,
               targetingKey = Some ''user-123'', userContext = [(''age'', CNum (Finite 30))]\<rparr>"

definition user_123_no_consent :: FlagshipContext where
  "user_123_no_consent =
     \<lparr>fsVisitorInfo = Some \<lparr>vi_hasConsented = Some False, vi_isAuthenticated = None\<rparr>,
      targetingKey = Some ''user-123'', userContext = [(''age'', CNum (Finite 31))]\<rparr>"

definition user_456 :: FlagshipContext where
  "user_456 = \<lparr>fsVisitorInfo = None, targetingKey = Some ''user-456'', userContext = []\<rparr>"

definition empty_context :: FlagshipContext where
  "empty_context = \<lparr>fsVisitorInfo = None, targetingKey = None, userContext = []\<rparr>"

text \<open>A provider whose current visitor is \<open>user-123\<close>, consenting, with flags fetched.\<close>

definition visitor_123 :: Visitor where
  "visitor_123 =
     \<lparr>oid = 0,
      props = \<lparr>visitorId = ''user-123'', hasConsented = True, flagsStatus = FETCHED,
               attributes = Map.empty, getFlag = (\<lambda>k. Inr None)\<rparr>\<rparr>"

definition world_123 :: world where
  "world_123 =
     \<lparr>envId = ''env-test-id'', apiKey = ''api-test-key'', this_visitor = Some visitor_123,
      sdk_status = SDK_INITIALIZED, next_object = 1, calls = []\<rparr>"

text \<open>
  Flags: one that evaluates to the empty string and has no slug, one with a null slug, one
  with a slug; and a visitor that has them.
\<close>

definition empty_string_flag :: FSFlag where
  "empty_string_flag =
     \<lparr>getValue = (\<lambda>d. Inr (JStr [])),
      metadata = [''campaignId'' \<mapsto> JStr ''123'', ''variationId'' \<mapsto> JStr ''abc'']\<rparr>"

definition null_slug_flag :: FSFlag where
  "null_slug_flag =
     \<lparr>getValue = (\<lambda>d. Inr (JBool True)),
      metadata = [''campaignId'' \<mapsto> JStr ''123'', ''slug'' \<mapsto> JNull]\<rparr>"

definition slug_flag :: FSFlag where
  "slug_flag =
     \<lparr>getValue = (\<lambda>d. Inr (JStr ''value'')),
      metadata = [''campaignId'' \<mapsto> JStr ''123'', ''slug'' \<mapsto> JStr ''test-slug'']\<rparr>"

text \<open>A flag whose \<open>getValue\<close> throws, and a visitor whose \<open>getFlag\<close> throws.\<close>

definition throwing_flag :: FSFlag where
  "throwing_flag =
     \<lparr>getValue = (\<lambda>d. Inl (Thrown ''getValue failed'')),
      metadata = [''campaignId'' \<mapsto> JStr ''123'']\<rparr>"



definition flag_visitor :: Visitor where
  "flag_visitor =
     \<lparr>oid = 0,
      props = \<lparr>visitorId = ''user-123'', hasConsented = True, flagsStatus = FETCHED,
               attributes = Map.empty,
               getFlag = (\<lambda>k. if k = ''my-flag'' then Inr (Some empty_string_flag)
                               else if k = ''other-flag'' then Inr (Some null_slug_flag)
                               else if k = ''slug-flag'' then Inr (Some slug_flag)
                               else if k = ''broken-flag'' then Inr (Some throwing_flag)
                               else Inr None)\<rparr>\<rparr>"

definition world_flags :: world where
  "world_flags =
     \<lparr>envId = ''env-test-id'', apiKey = ''api-test-key'', this_visitor = Some flag_visitor,
      sdk_status = SDK_INITIALIZED, next_object = 1, calls = []\<rparr>"

section \<open>The attribute filter\<close>

lemma keeps_iff_primitive: "keeps v = is_primitive v"
  by (cases v) (simp_all add: keeps_def)

lemma toPrimitiveRecord_loop_lookup:
  "distinct (map fst input) \<Longrightarrow>
   toPrimitiveRecord_loop input acc key =
     (case map_of input key of
        Some v \<Rightarrow> if keeps v \<and> key \<noteq> ''__proto__'' then Some v else acc key
      | None \<Rightarrow> acc key)"
proof (induction input arbitrary: acc)
  case Nil
  then show ?case by simp
next
  case (Cons e rest)
  obtain k v where e: "e = (k, v)" by (cases e)
  from Cons.prems e have d: "distinct (map fst rest)" and nk: "k \<notin> fst ` set rest" by auto
  from nk have none: "map_of rest k = None" by (simp add: map_of_eq_None_iff)
  show ?case
    using Cons.IH [OF d] none e by (auto simp: assign_property_def split: option.splits)
qed

lemma toPrimitiveRecord_lookup:
  "distinct (map fst input) \<Longrightarrow>
   toPrimitiveRecord input key =
     (case map_of input key of
        Some v \<Rightarrow> if is_primitive v \<and> key \<noteq> ''__proto__'' then Some v else None
      | None \<Rightarrow> None)"
  by (simp add: toPrimitiveRecord_def toPrimitiveRecord_loop_lookup keeps_iff_primitive
        split: option.splits)

text \<open>
  What the filter does on every attribute bag (an object, so no key occurs twice): the
  output holds exactly the entries whose value is a string, a number or a boolean and whose
  key is not \<open>__proto__\<close>; an entry whose value is null, a function or of type object is
  absent, and every value forwarded is a primitive.
\<close>

lemma toPrimitiveRecord_entries:
  assumes "distinct (map fst input)"
  shows "(\<forall>key v. toPrimitiveRecord input key = Some v \<longleftrightarrow>
             key \<noteq> ''__proto__'' \<and> (key, v) \<in> set input \<and> is_primitive v)
       \<and> (\<forall>key v. (key, v) \<in> set input \<and>
             (v = CNull \<or> v = CFunction \<or> typeof_ctx v = ''object'') \<longrightarrow>
               toPrimitiveRecord input key = None)
       \<and> (\<forall>v \<in> ran (toPrimitiveRecord input).
             typeof_ctx v = ''string'' \<or> typeof_ctx v = ''number'' \<or> typeof_ctx v = ''boolean'')"
proof -
  have lookup: "\<And>key v. toPrimitiveRecord input key = Some v \<longleftrightarrow>
      key \<noteq> ''__proto__'' \<and> (key, v) \<in> set input \<and> is_primitive v"
  proof -
    fix key v
    have "toPrimitiveRecord input key = Some v \<longleftrightarrow>
        key \<noteq> ''__proto__'' \<and> map_of input key = Some v \<and> is_primitive v"
      by (auto simp: toPrimitiveRecord_lookup [OF assms] split: option.splits)
    then show "toPrimitiveRecord input key = Some v \<longleftrightarrow>
        key \<noteq> ''__proto__'' \<and> (key, v) \<in> set input \<and> is_primitive v"
      using assms by simp
  qed
  have dropped: "\<And>key v. (key, v) \<in> set input \<Longrightarrow>
      v = CNull \<or> v = CFunction \<or> typeof_ctx v = ''object'' \<Longrightarrow> toPrimitiveRecord input key = None"
  proof -
    fix key v assume m: "(key, v) \<in> set input" and bad: "v = CNull \<or> v = CFunction \<or> typeof_ctx v = ''object''"
    from assms m have "map_of input key = Some v" by simp
    moreover from bad have "\<not> is_primitive v" by (cases v) auto
    ultimately show "toPrimitiveRecord input key = None"
      using assms by (simp add: toPrimitiveRecord_lookup)
  qed
  have kept: "\<And>v. v \<in> ran (toPrimitiveRecord input) \<Longrightarrow>
      typeof_ctx v = ''string'' \<or> typeof_ctx v = ''number'' \<or> typeof_ctx v = ''boolean''"
  proof -
    fix v assume "v \<in> ran (toPrimitiveRecord input)"
    then obtain key where "toPrimitiveRecord input key = Some v" by (auto simp: ran_def)
    with lookup have "is_primitive v" by blast
    then show "typeof_ctx v = ''string'' \<or> typeof_ctx v = ''number'' \<or> typeof_ctx v = ''boolean''"
      by (cases v) auto
  qed
  from lookup dropped kept show ?thesis by blast
qed

lemma toPrimitiveRecord_example:
  "toPrimitiveRecord example_bag ''age'' = Some (CNum (Finite 30))
   \<and> toPrimitiveRecord example_bag ''vip'' = Some (CBool True)
   \<and> toPrimitiveRecord example_bag ''nick'' = None
   \<and> toPrimitiveRecord example_bag ''cb'' = None
   \<and> toPrimitiveRecord example_bag ''address'' = None"
  by (simp add: toPrimitiveRecord_def example_bag_def keeps_def assign_property_def)

text \<open>
  C6. The claim does not hold of the code at a bag with an own property \<open>__proto__\<close>: the
  entry \<open>__proto__: 'x'\<close> has a string value and passes the filter, but the assignment
  \<open>output['__proto__'] = 'x'\<close> creates no property, so the entry is missing from the output,
  while the entry \<open>age: 30\<close> beside it is forwarded.
\<close>

theorem toPrimitiveRecord_drops_proto_entry:
  "distinct (map fst proto_bag)
   \<and> (''__proto__'', CStr ''x'') \<in> set proto_bag
   \<and> is_primitive (CStr ''x'')
   \<and> keeps (CStr ''x'')
   \<and> toPrimitiveRecord proto_bag ''__proto__'' = None
   \<and> toPrimitiveRecord proto_bag ''age'' = Some (CNum (Finite 30))"
  by (simp add: toPrimitiveRecord_def proto_bag_def keeps_def assign_property_def)

section \<open>Flag resolution: properties\<close>

lemma not_truthy_iff:
  "\<not> truthy x \<longleftrightarrow> x \<in> {JStr [], JNum (Finite 0), JBool False, JNull, JUndefined, JNum NaN}"
  by (cases x) auto

lemma resolveEvaluation_found:
  "this_visitor w = Some v \<Longrightarrow> getFlag (props v) flagKey = Inr (Some f) \<Longrightarrow>
   getValue f d = Inr x \<Longrightarrow>
   resolveEvaluation w flagKey d =
     Inr \<lparr>res_value = js_or x d,
          res_flagMetadata = Some ((metadata f)(''slug'' \<mapsto> nullish (get_prop (metadata f) ''slug'') (JStr [])))\<rparr>"
  by (simp add: resolveEvaluation_def)



text \<open>
  C4. When the flag exists on the current visitor and \<open>getValue\<close> returns a falsy value
  (the empty string, zero, false, null, undefined or NaN), \<open>resolveEvaluation\<close> and each of
  the four typed methods return, and the value returned is the caller's default.
\<close>

theorem falsy_value_replaced_by_default:
  assumes "this_visitor w = Some v" and "getFlag (props v) flagKey = Inr (Some f)"
  shows "(\<forall>x. getValue f d = Inr x \<and> x \<in> {JStr [], JNum (Finite 0), JBool False, JNull, JUndefined, JNum NaN} \<longrightarrow>
            (\<exists>r. resolveEvaluation w flagKey d = Inr r \<and> res_value r = d))
       \<and> (\<forall>x. getValue f (JBool b) = Inr x \<and> x \<in> {JStr [], JNum (Finite 0), JBool False, JNull, JUndefined, JNum NaN} \<longrightarrow>
            (\<exists>r. resolveBooleanEvaluation w flagKey b = Inr r \<and> res_value r = JBool b))
       \<and> (\<forall>x. getValue f (JStr s) = Inr x \<and> x \<in> {JStr [], JNum (Finite 0), JBool False, JNull, JUndefined, JNum NaN} \<longrightarrow>
            (\<exists>r. resolveStringEvaluation w flagKey s = Inr r \<and> res_value r = JStr s))
       \<and> (\<forall>x. getValue f (JNum n) = Inr x \<and> x \<in> {JStr [], JNum (Finite 0), JBool False, JNull, JUndefined, JNum NaN} \<longrightarrow>
            (\<exists>r. resolveNumberEvaluation w flagKey n = Inr r \<and> res_value r = JNum n))
       \<and> (\<forall>x. getValue f d = Inr x \<and> x \<in> {JStr [], JNum (Finite 0), JBool False, JNull, JUndefined, JNum NaN} \<longrightarrow>
            (\<exists>r. resolveObjectEvaluation w flagKey d = Inr r \<and> res_value r = d))"
proof -
  have gen: "\<And>y x. getValue f y = Inr x \<and> x \<in> {JStr [], JNum (Finite 0), JBool False, JNull, JUndefined, JNum NaN}
      \<Longrightarrow> \<exists>r. resolveEvaluation w flagKey y = Inr r \<and> res_value r = y"
  proof -
    fix y x assume h: "getValue f y = Inr x \<and> x \<in> {JStr [], JNum (Finite 0), JBool False, JNull, JUndefined, JNum NaN}"
    then have "\<not> truthy x" by (simp only: not_truthy_iff)
    with h show "\<exists>r. resolveEvaluation w flagKey y = Inr r \<and> res_value r = y"
      by (simp add: resolveEvaluation_found [OF assms] js_or_def)
  qed
  show ?thesis
    unfolding resolveBooleanEvaluation_def resolveStringEvaluation_def
      resolveNumberEvaluation_def resolveObjectEvaluation_def
    using gen by blast
qed

theorem falsy_value_replaced_by_default_witness:
  "(\<exists>r. resolveEvaluation world_flags ''my-flag'' (JStr ''blue'') = Inr r \<and> res_value r = JStr ''blue'')
   \<and> (\<exists>r. resolveBooleanEvaluation world_flags ''my-flag'' True = Inr r \<and> res_value r = JBool True)
   \<and> (\<exists>r. resolveStringEvaluation world_flags ''my-flag'' ''blue'' = Inr r \<and> res_value r = JStr ''blue'')
   \<and> (\<exists>r. resolveNumberEvaluation world_flags ''my-flag'' (Finite 7) = Inr r \<and> res_value r = JNum (Finite 7))
   \<and> (\<exists>r. resolveObjectEvaluation world_flags ''my-flag'' (JArray []) = Inr r \<and> res_value r = JArray [])"
proof -
  have v: "this_visitor world_flags = Some flag_visitor" by (simp add: world_flags_def)
  have f: "getFlag (props flag_visitor) ''my-flag'' = Inr (Some empty_string_flag)"
    by (simp add: flag_visitor_def)
  have g: "\<And>y. getValue empty_string_flag y = Inr (JStr []) \<and> JStr [] \<in> {JStr [], JNum (Finite 0), JBool False, JNull, JUndefined, JNum NaN}"
    by (simp add: empty_string_flag_def)
  note t1 = falsy_value_replaced_by_default [OF v f, of "JStr ''blue''" True "''blue''" "Finite 7"]
  note t2 = falsy_value_replaced_by_default [OF v f, of "JArray []" True "''blue''" "Finite 7"]
  note a = t1 [THEN conjunct1, THEN spec, THEN mp, OF g]
  note b = t1 [THEN conjunct2, THEN conjunct1, THEN spec, THEN mp, OF g]
  note c = t1 [THEN conjunct2, THEN conjunct2, THEN conjunct1, THEN spec, THEN mp, OF g]
  note d = t1 [THEN conjunct2, THEN conjunct2, THEN conjunct2, THEN conjunct1, THEN spec, THEN mp, OF g]
  note e = t2 [THEN conjunct2, THEN conjunct2, THEN conjunct2, THEN conjunct2, THEN spec, THEN mp, OF g]
  from a b c d e show ?thesis by (intro conjI)
qed




text \<open>
  C9. When the flag exists and its evaluation returns, the resolution returns metadata
  that is an object with a \<open>slug\<close> property that is never null or undefined: it is the slug
  of the SDK's metadata when that metadata supplies one (a value other than null and
  undefined), and the empty string when the metadata has no slug (the property is missing,
  or is undefined or null, the two cases that \<open>??\<close> replaces). Every other property is the
  one of the SDK's metadata.
\<close>

theorem metadata_slug_normalized:
  assumes "this_visitor w = Some v" and "getFlag (props v) flagKey = Inr (Some f)"
    and "getValue f d = Inr x"
  shows "\<exists>r m. resolveEvaluation w flagKey d = Inr r \<and> res_flagMetadata r = Some m
       \<and> (\<exists>slug. m ''slug'' = Some slug \<and> slug \<noteq> JUndefined \<and> slug \<noteq> JNull)
       \<and> (\<forall>slug. metadata f ''slug'' = Some slug \<and> slug \<noteq> JUndefined \<and> slug \<noteq> JNull \<longrightarrow>
             m ''slug'' = Some slug)
       \<and> (metadata f ''slug'' = None \<or> metadata f ''slug'' = Some JUndefined
            \<or> metadata f ''slug'' = Some JNull \<longrightarrow> m ''slug'' = Some (JStr []))
       \<and> (\<forall>name. name \<noteq> ''slug'' \<longrightarrow> m name = metadata f name)"
  by (auto simp: resolveEvaluation_found [OF assms] nullish_def get_prop_def split: option.splits)

theorem metadata_slug_normalized_witness:
  "(\<exists>r m. resolveEvaluation world_flags ''my-flag'' JNull = Inr r \<and> res_flagMetadata r = Some m
        \<and> m ''slug'' = Some (JStr []) \<and> m ''campaignId'' = Some (JStr ''123''))
   \<and> (\<exists>r m. resolveEvaluation world_flags ''other-flag'' JNull = Inr r \<and> res_flagMetadata r = Some m
        \<and> m ''slug'' = Some (JStr []) \<and> m ''campaignId'' = Some (JStr ''123''))
   \<and> (\<exists>r m. resolveEvaluation world_flags ''slug-flag'' JNull = Inr r \<and> res_flagMetadata r = Some m
        \<and> m ''slug'' = Some (JStr ''test-slug'') \<and> m ''campaignId'' = Some (JStr ''123''))"
proof -
  have v: "this_visitor world_flags = Some flag_visitor" by (simp add: world_flags_def)
  have f1: "getFlag (props flag_visitor) ''my-flag'' = Inr (Some empty_string_flag)"
    and f2: "getFlag (props flag_visitor) ''other-flag'' = Inr (Some null_slug_flag)"
    and f3: "getFlag (props flag_visitor) ''slug-flag'' = Inr (Some slug_flag)"
    by (simp_all add: flag_visitor_def)
  have g1: "getValue empty_string_flag JNull = Inr (JStr [])"
    and g2: "getValue null_slug_flag JNull = Inr (JBool True)"
    and g3: "getValue slug_flag JNull = Inr (JStr ''value'')"
    by (simp_all add: empty_string_flag_def null_slug_flag_def slug_flag_def)
  have m1: "metadata empty_string_flag ''slug'' = None"
       "metadata empty_string_flag ''campaignId'' = Some (JStr ''123'')"
    by (simp_all add: empty_string_flag_def)
  have m2: "metadata null_slug_flag ''slug'' = Some JNull"
       "metadata null_slug_flag ''campaignId'' = Some (JStr ''123'')"
    by (simp_all add: null_slug_flag_def)
  have m3: "metadata slug_flag ''slug'' = Some (JStr ''test-slug'')"
       "metadata slug_flag ''campaignId'' = Some (JStr ''123'')"
    by (simp_all add: slug_flag_def)
  have ne: "''campaignId'' \<noteq> ''slug''" by simp
  from metadata_slug_normalized [OF v f1 g1]
  obtain r m where "resolveEvaluation world_flags ''my-flag'' JNull = Inr r"
    and "res_flagMetadata r = Some m"
    and "metadata empty_string_flag ''slug'' = None \<or> metadata empty_string_flag ''slug'' = Some JUndefined
            \<or> metadata empty_string_flag ''slug'' = Some JNull \<longrightarrow> m ''slug'' = Some (JStr [])"
    and "\<forall>name. name \<noteq> ''slug'' \<longrightarrow> m name = metadata empty_string_flag name"
    by blast
  with m1 ne
  have a: "\<exists>r m. resolveEvaluation world_flags ''my-flag'' JNull = Inr r \<and> res_flagMetadata r = Some m
        \<and> m ''slug'' = Some (JStr []) \<and> m ''campaignId'' = Some (JStr ''123'')"
    by simp
  from metadata_slug_normalized [OF v f2 g2]
  obtain r m where "resolveEvaluation world_flags ''other-flag'' JNull = Inr r"
    and "res_flagMetadata r = Some m"
    and "metadata null_slug_flag ''slug'' = None \<or> metadata null_slug_flag ''slug'' = Some JUndefined
            \<or> metadata null_slug_flag ''slug'' = Some JNull \<longrightarrow> m ''slug'' = Some (JStr [])"
    and "\<forall>name. name \<noteq> ''slug'' \<longrightarrow> m name = metadata null_slug_flag name"
    by blast
  with m2 ne
  have b: "\<exists>r m. resolveEvaluation world_flags ''other-flag'' JNull = Inr r \<and> res_flagMetadata r = Some m
        \<and> m ''slug'' = Some (JStr []) \<and> m ''campaignId'' = Some (JStr ''123'')"
    by simp
  from metadata_slug_normalized [OF v f3 g3]
  obtain r m where "resolveEvaluation world_flags ''slug-flag'' JNull = Inr r"
    and "res_flagMetadata r = Some m"
    and "\<forall>slug. metadata slug_flag ''slug'' = Some slug \<and> slug \<noteq> JUndefined \<and> slug \<noteq> JNull \<longrightarrow>
             m ''slug'' = Some slug"
    and "\<forall>name. name \<noteq> ''slug'' \<longrightarrow> m name = metadata slug_flag name"
    by blast
  with m3 ne
  have c: "\<exists>r m. resolveEvaluation world_flags ''slug-flag'' JNull = Inr r \<and> res_flagMetadata r = Some m
        \<and> m ''slug'' = Some (JStr ''test-slug'') \<and> m ''campaignId'' = Some (JStr ''123'')"
    by simp
  from a b c show ?thesis by (intro conjI)
qed

text \<open>
  C10. Each of the four typed resolution methods is \<open>resolveEvaluation\<close> applied to the
  same state, key and default, so all four share its value fallback and its metadata
  normalization.
\<close>

theorem typed_resolvers_are_resolveEvaluation:
  "resolveBooleanEvaluation w flagKey b = resolveEvaluation w flagKey (JBool b)
   \<and> resolveStringEvaluation w flagKey s = resolveEvaluation w flagKey (JStr s)
   \<and> resolveNumberEvaluation w flagKey n = resolveEvaluation w flagKey (JNum n)
   \<and> resolveObjectEvaluation w flagKey d = resolveEvaluation w flagKey d"
  by (simp add: resolveBooleanEvaluation_def resolveStringEvaluation_def
      resolveNumberEvaluation_def resolveObjectEvaluation_def)

section \<open>The session reconciler: properties\<close>

lemma createVisitor_world:
  "snd (createVisitor sdk c w) =
     w\<lparr>next_object := Suc (next_object w),
       calls := calls w @ [NewVisitor (next_object w) (visitor_args c), FetchFlags (next_object w)]\<rparr>"
  by (simp add: createVisitor_def await_fetchFlags_def log_call_def Let_def
      split: prod.splits option.splits)

lemma createVisitor_result:
  "fst (createVisitor sdk c w) =
     (case fst (sdk_fetchFlags sdk (sdk_newVisitor sdk (visitor_args c))) of
        Some e \<Rightarrow> Inl e
      | None \<Rightarrow> Inr \<lparr>oid = next_object w,
                      props = snd (sdk_fetchFlags sdk (sdk_newVisitor sdk (visitor_args c)))\<rparr>)"
  by (simp add: createVisitor_def await_fetchFlags_def log_call_def Let_def
      split: prod.splits option.splits)

lemma calls_during_append [simp]:
  "calls w' = calls w @ cs \<Longrightarrow> calls_during w w' = cs"
  by (simp add: calls_during_def)

lemma updateVisitorFlags_identity:
  assumes "targetingKey c \<noteq> this_visitorId w"
  shows "snd (updateVisitorFlags sdk c w) =
     (case fst (createVisitor sdk (Some c) w) of
        Inl e \<Rightarrow> snd (createVisitor sdk (Some c) w)
      | Inr v \<Rightarrow> (snd (createVisitor sdk (Some c) w))\<lparr>this_visitor := Some v\<rparr>)"
  using assms by (simp add: updateVisitorFlags_def split: prod.splits sum.splits)

lemma updateVisitorFlags_identity_calls:
  assumes "targetingKey c \<noteq> this_visitorId w"
  shows "calls (snd (updateVisitorFlags sdk c w)) =
     calls w @ [NewVisitor (next_object w) (visitor_args (Some c)), FetchFlags (next_object w)]"
  by (simp add: updateVisitorFlags_identity [OF assms] createVisitor_world split: sum.splits)

lemma onContextChange_world:
  "snd (onContextChange sdk old c w) = snd (updateVisitorFlags sdk c w)"
  by (simp add: onContextChange_def split: prod.splits sum.splits)

text \<open>
  C1. When the new context's \<open>targetingKey\<close> differs from \<open>this._visitor?.visitorId\<close>
  (a visitor with another identity, or no visitor yet and a key), the calls made during
  \<open>onContextChange\<close> are exactly one \<open>newVisitor\<close> and one \<open>fetchFlags\<close> on the visitor just
  created; no \<open>updateContext\<close> and no \<open>setConsent\<close> is called on any visitor.
\<close>

theorem identity_change_creates_and_fetches_once:
  assumes "targetingKey newContext \<noteq> this_visitorId w"
  shows "calls_during w (snd (onContextChange sdk oldContext newContext w)) =
           [NewVisitor (next_object w) (visitor_args (Some newContext)), FetchFlags (next_object w)]
       \<and> count is_NewVisitor (calls_during w (snd (onContextChange sdk oldContext newContext w))) = 1
       \<and> count is_FetchFlags (calls_during w (snd (onContextChange sdk oldContext newContext w))) = 1
       \<and> count is_UpdateContext (calls_during w (snd (onContextChange sdk oldContext newContext w))) = 0
       \<and> count is_SetConsent (calls_during w (snd (onContextChange sdk oldContext newContext w))) = 0"
proof -
  have "calls_during w (snd (onContextChange sdk oldContext newContext w)) =
           [NewVisitor (next_object w) (visitor_args (Some newContext)), FetchFlags (next_object w)]"
    by (simp add: onContextChange_world updateVisitorFlags_identity_calls [OF assms])
  then show ?thesis by (simp add: count_def)
qed

lemma call_setConsent_facts:
  "this_visitor w = Some v \<Longrightarrow>
     calls (call_setConsent sdk c w) = calls w @ [SetConsent (oid v) c]
   \<and> (\<exists>v'. this_visitor (call_setConsent sdk c w) = Some v' \<and> oid v' = oid v)
   \<and> next_object (call_setConsent sdk c w) = next_object w"
  by (simp add: call_setConsent_def log_call_def)

lemma call_updateContext_facts:
  "this_visitor w = Some v \<Longrightarrow>
     calls (call_updateContext sdk a w) = calls w @ [UpdateContext (oid v) a]
   \<and> (\<exists>v'. this_visitor (call_updateContext sdk a w) = Some v' \<and> oid v' = oid v)
   \<and> next_object (call_updateContext sdk a w) = next_object w"
  by (simp add: call_updateContext_def log_call_def)


lemma patch_keeps_handle:
  assumes "targetingKey c = this_visitorId w"
  shows "\<exists>cs. calls (snd (updateVisitorFlags sdk c w)) = calls w @ cs
            \<and> (\<forall>x \<in> set cs. \<not> is_NewVisitor x)"
    and "map_option oid (this_visitor (snd (updateVisitorFlags sdk c w))) = map_option oid (this_visitor w)"
    and "next_object (snd (updateVisitorFlags sdk c w)) = next_object w"
  using assms
  by (auto simp: updateVisitorFlags_def call_updateContext_def call_setConsent_def
        await_fetchFlags_def log_call_def Let_def split: option.splits prod.splits)

lemma count_none: "\<forall>x \<in> set cs. \<not> P x \<Longrightarrow> count P cs = 0"
  by (simp add: count_def)

text \<open>
  C2. When the new context's \<open>targetingKey\<close> equals \<open>this._visitor?.visitorId\<close>,
  \<open>onContextChange\<close> creates no visitor: \<open>newVisitor\<close> is not called, no object is allocated,
  and the visitor stored after the call is the object stored before it.
\<close>

theorem same_identity_keeps_handle:
  assumes "targetingKey newContext = this_visitorId w"
  shows "map_option oid (this_visitor (snd (onContextChange sdk oldContext newContext w)))
           = map_option oid (this_visitor w)
       \<and> count is_NewVisitor (calls_during w (snd (onContextChange sdk oldContext newContext w))) = 0
       \<and> next_object (snd (onContextChange sdk oldContext newContext w)) = next_object w"
proof -
  from patch_keeps_handle(1) [OF assms, of sdk]
  obtain cs where cs: "calls (snd (updateVisitorFlags sdk newContext w)) = calls w @ cs"
    and no: "\<forall>x \<in> set cs. \<not> is_NewVisitor x" by blast
  from cs have "calls_during w (snd (onContextChange sdk oldContext newContext w)) = cs"
    by (simp add: onContextChange_world)
  with no have "count is_NewVisitor (calls_during w (snd (onContextChange sdk oldContext newContext w))) = 0"
    by (simp add: count_none)
  then show ?thesis
    by (simp add: onContextChange_world patch_keeps_handle(2,3) [OF assms])
qed

lemma patch_calls_toggle:
  assumes "this_visitor w = Some v" and "targetingKey c = Some (visitorId (props v))"
    and "context_hasConsented c = Some b" and "b \<noteq> hasConsented (props v)"
  shows "\<exists>rest. calls (snd (updateVisitorFlags sdk c w)) =
            calls w @ SetConsent (oid v) b # UpdateContext (oid v) (toPrimitiveRecord (userContext c)) # rest
          \<and> (rest = [] \<or> rest = [FetchFlags (oid v)])"
  using assms
  by (auto simp: updateVisitorFlags_def call_updateContext_def call_setConsent_def this_visitorId_def
        this_hasConsented_def await_fetchFlags_def log_call_def Let_def split: option.splits prod.splits)

lemma patch_calls_no_toggle:
  assumes "this_visitor w = Some v" and "targetingKey c = Some (visitorId (props v))"
    and "context_hasConsented c = None \<or> context_hasConsented c = Some (hasConsented (props v))"
  shows "\<exists>rest. calls (snd (updateVisitorFlags sdk c w)) =
            calls w @ UpdateContext (oid v) (toPrimitiveRecord (userContext c)) # rest
          \<and> (rest = [] \<or> rest = [FetchFlags (oid v)])"
  using assms
  by (auto simp: updateVisitorFlags_def call_updateContext_def call_setConsent_def this_visitorId_def
        this_hasConsented_def await_fetchFlags_def log_call_def Let_def split: option.splits prod.splits)

text \<open>
  C7. When the new context's \<open>targetingKey\<close> equals the current visitor's \<open>visitorId\<close>:
  if \<open>fsVisitorInfo.hasConsented\<close> is defined and differs from the visitor's \<open>hasConsented\<close>,
  \<open>setConsent\<close> is called exactly once, with the new value, and it is the call just before
  the \<open>updateContext\<close> patch; if it is undefined or unchanged, \<open>setConsent\<close> is not called
  and the patch is the first call.
\<close>

theorem consent_set_once_before_patch:
  assumes "this_visitor w = Some v" and "targetingKey newContext = Some (visitorId (props v))"
  shows "(\<forall>b. context_hasConsented newContext = Some b \<and> b \<noteq> hasConsented (props v) \<longrightarrow>
            (\<exists>rest. calls_during w (snd (onContextChange sdk oldContext newContext w)) =
                      SetConsent (oid v) b
                        # UpdateContext (oid v) (toPrimitiveRecord (userContext newContext)) # rest
                  \<and> count is_SetConsent rest = 0)
            \<and> count is_SetConsent (calls_during w (snd (onContextChange sdk oldContext newContext w))) = 1)
       \<and> (context_hasConsented newContext = None
            \<or> context_hasConsented newContext = Some (hasConsented (props v)) \<longrightarrow>
            (\<exists>rest. calls_during w (snd (onContextChange sdk oldContext newContext w)) =
                      UpdateContext (oid v) (toPrimitiveRecord (userContext newContext)) # rest)
            \<and> count is_SetConsent (calls_during w (snd (onContextChange sdk oldContext newContext w))) = 0)"
proof (intro conjI allI impI)
  fix b assume h: "context_hasConsented newContext = Some b \<and> b \<noteq> hasConsented (props v)"
  from patch_calls_toggle [OF assms, of b sdk] h
  obtain rest where r: "calls (snd (updateVisitorFlags sdk newContext w)) =
      calls w @ SetConsent (oid v) b # UpdateContext (oid v) (toPrimitiveRecord (userContext newContext)) # rest"
    and f: "rest = [] \<or> rest = [FetchFlags (oid v)]" by blast
  from r have cd: "calls_during w (snd (onContextChange sdk oldContext newContext w)) =
      SetConsent (oid v) b # UpdateContext (oid v) (toPrimitiveRecord (userContext newContext)) # rest"
    by (simp add: onContextChange_world)
  from f have z: "count is_SetConsent rest = 0" by (auto simp: count_def)
  from cd z show "\<exists>rest. calls_during w (snd (onContextChange sdk oldContext newContext w)) =
                      SetConsent (oid v) b
                        # UpdateContext (oid v) (toPrimitiveRecord (userContext newContext)) # rest
                  \<and> count is_SetConsent rest = 0" by blast
  from cd f show "count is_SetConsent (calls_during w (snd (onContextChange sdk oldContext newContext w))) = 1"
    by (auto simp: count_def)
next
  assume h: "context_hasConsented newContext = None
            \<or> context_hasConsented newContext = Some (hasConsented (props v))"
  from patch_calls_no_toggle [OF assms h, of sdk]
  obtain rest where r: "calls (snd (updateVisitorFlags sdk newContext w)) =
      calls w @ UpdateContext (oid v) (toPrimitiveRecord (userContext newContext)) # rest"
    and f: "rest = [] \<or> rest = [FetchFlags (oid v)]" by blast
  from r have cd: "calls_during w (snd (onContextChange sdk oldContext newContext w)) =
      UpdateContext (oid v) (toPrimitiveRecord (userContext newContext)) # rest"
    by (simp add: onContextChange_world)
  then show "\<exists>rest. calls_during w (snd (onContextChange sdk oldContext newContext w)) =
                      UpdateContext (oid v) (toPrimitiveRecord (userContext newContext)) # rest" by blast
  from cd f show "count is_SetConsent (calls_during w (snd (onContextChange sdk oldContext newContext w))) = 0"
    by (auto simp: count_def)
qed

lemma initializeSDK_world:
  "calls (snd (initializeSDK sdk w)) =
     calls w @ (if sdk_status w = SDK_NOT_INITIALIZED then [Start (envId w) (apiKey w) False] else [])"
  "next_object (snd (initializeSDK sdk w)) = next_object w"
  "this_visitor (snd (initializeSDK sdk w)) = this_visitor w"
  by (simp_all add: initializeSDK_def log_call_def Let_def split: prod.splits option.splits)

lemma initialize_resolved:
  assumes "fst (initialize sdk ctx w) = Inr ()"
  shows "fst (initializeSDK sdk w) = Inr ()"
    and "fst (sdk_fetchFlags sdk (sdk_newVisitor sdk (visitor_args ctx))) = None"
    and "snd (initialize sdk ctx w) =
           log_call (Emit Ready)
             ((snd (createVisitor sdk ctx (snd (initializeSDK sdk w))))
                \<lparr>this_visitor := Some \<lparr>oid = next_object w,
                    props = snd (sdk_fetchFlags sdk (sdk_newVisitor sdk (visitor_args ctx)))\<rparr>\<rparr>)"
proof -
  obtain r1 w1 where i: "initializeSDK sdk w = (r1, w1)" by (cases "initializeSDK sdk w")
  obtain r2 w2 where c: "createVisitor sdk ctx w1 = (r2, w2)" by (cases "createVisitor sdk ctx w1")
  from assms i have r1: "r1 = Inr ()" by (cases r1) (auto simp: initialize_def split: prod.splits sum.splits)
  from assms i c r1 obtain vis where r2: "r2 = Inr vis"
    by (cases r2) (auto simp: initialize_def)
  from i r1 show "fst (initializeSDK sdk w) = Inr ()" by simp
  have n: "next_object w1 = next_object w" using initializeSDK_world(2) [of sdk w] i by simp
  from createVisitor_result [of sdk ctx w1] c r2 n
  show f: "fst (sdk_fetchFlags sdk (sdk_newVisitor sdk (visitor_args ctx))) = None"
    by (auto split: option.splits)
  from createVisitor_result [of sdk ctx w1] c r2 n f
  have "vis = \<lparr>oid = next_object w,
                    props = snd (sdk_fetchFlags sdk (sdk_newVisitor sdk (visitor_args ctx)))\<rparr>"
    by simp
  with i c r1 r2 show "snd (initialize sdk ctx w) =
           log_call (Emit Ready)
             ((snd (createVisitor sdk ctx (snd (initializeSDK sdk w))))
                \<lparr>this_visitor := Some \<lparr>oid = next_object w,
                    props = snd (sdk_fetchFlags sdk (sdk_newVisitor sdk (visitor_args ctx)))\<rparr>\<rparr>)"
    by (simp add: initialize_def)
qed

text \<open>
  C3, amended. A call to \<open>initialize\<close> that resolves, with or without a context, makes
  these calls in this order: \<open>Flagship.start\<close> if the SDK was not initialized, \<open>newVisitor\<close>,
  \<open>fetchFlags\<close> on the new visitor, which resolved, and then one \<open>Ready\<close> event, the only
  one. The current visitor is the one just created, whatever it was before, and no
  \<open>updateContext\<close> or \<open>setConsent\<close> is called.
\<close>

theorem initialize_resolved_emits_ready_once:
  assumes "fst (initialize sdk ctx w) = Inr ()"
  shows "calls_during w (snd (initialize sdk ctx w)) =
           (if sdk_status w = SDK_NOT_INITIALIZED then [Start (envId w) (apiKey w) False] else [])
           @ [NewVisitor (next_object w) (visitor_args ctx), FetchFlags (next_object w), Emit Ready]
       \<and> fst (sdk_fetchFlags sdk (sdk_newVisitor sdk (visitor_args ctx))) = None
       \<and> count is_Ready (calls_during w (snd (initialize sdk ctx w))) = 1
       \<and> count is_NewVisitor (calls_during w (snd (initialize sdk ctx w))) = 1
       \<and> count is_UpdateContext (calls_during w (snd (initialize sdk ctx w))) = 0
       \<and> count is_SetConsent (calls_during w (snd (initialize sdk ctx w))) = 0
       \<and> this_visitor (snd (initialize sdk ctx w)) =
           Some \<lparr>oid = next_object w,
                 props = snd (sdk_fetchFlags sdk (sdk_newVisitor sdk (visitor_args ctx)))\<rparr>"
proof -
  have c: "calls (snd (initialize sdk ctx w)) =
           calls w @ (if sdk_status w = SDK_NOT_INITIALIZED then [Start (envId w) (apiKey w) False] else [])
           @ [NewVisitor (next_object w) (visitor_args ctx), FetchFlags (next_object w), Emit Ready]"
    by (simp add: initialize_resolved(3) [OF assms] log_call_def createVisitor_world initializeSDK_world)
  then have cd: "calls_during w (snd (initialize sdk ctx w)) =
           (if sdk_status w = SDK_NOT_INITIALIZED then [Start (envId w) (apiKey w) False] else [])
           @ [NewVisitor (next_object w) (visitor_args ctx), FetchFlags (next_object w), Emit Ready]"
    by (rule calls_during_append)
  have v: "this_visitor (snd (initialize sdk ctx w)) =
           Some \<lparr>oid = next_object w,
                 props = snd (sdk_fetchFlags sdk (sdk_newVisitor sdk (visitor_args ctx)))\<rparr>"
    by (simp add: initialize_resolved(3) [OF assms] log_call_def)
  from cd v initialize_resolved(2) [OF assms] show ?thesis
    by (simp add: count_def)
qed

lemma visitor_args_Some:
  "visitor_args (Some c) =
     \<lparr>nv_hasConsented = context_hasConsented c,
      nv_isAuthenticated = (case fsVisitorInfo c of None \<Rightarrow> None | Some i \<Rightarrow> vi_isAuthenticated i),
      nv_visitorId = targetingKey c,
      nv_context = toPrimitiveRecord (userContext c)\<rparr>"
  by (simp add: visitor_args_def context_hasConsented_def)

lemma onContextChange_resolved:
  "fst (onContextChange sdk old c w) = Inr () \<longleftrightarrow> (\<exists>r. fst (updateVisitorFlags sdk c w) = Inr r)"
  by (cases "updateVisitorFlags sdk c w") (auto simp: onContextChange_def split: sum.splits)

lemma updateVisitorFlags_identity_result:
  assumes "targetingKey c \<noteq> this_visitorId w"
  shows "fst (updateVisitorFlags sdk c w) = map_sum id Some (fst (createVisitor sdk (Some c) w))"
  using assms by (simp add: updateVisitorFlags_def split: prod.splits sum.splits)

text \<open>
  C8, amended. When there is no current visitor and the new context has a \<open>targetingKey\<close>,
  \<open>onContextChange\<close> takes the identity branch: it runs \<open>createVisitor\<close> on the new context,
  so \<open>newVisitor\<close> gets the context's identity, consent and filtered attributes and
  \<open>fetchFlags\<close> is called on the new visitor. When the call resolves, the new visitor is
  the current one, and \<open>initialize\<close> with the same context on a started SDK does the same
  and then emits \<open>Ready\<close>.
\<close>

theorem first_context_with_key_creates_handle:
  assumes "this_visitor w = None" and "targetingKey newContext = Some key"
  shows "calls_during w (snd (onContextChange sdk oldContext newContext w)) =
           [NewVisitor (next_object w)
              \<lparr>nv_hasConsented = context_hasConsented newContext,
               nv_isAuthenticated =
                 (case fsVisitorInfo newContext of None \<Rightarrow> None | Some i \<Rightarrow> vi_isAuthenticated i),
               nv_visitorId = Some key,
               nv_context = toPrimitiveRecord (userContext newContext)\<rparr>,
            FetchFlags (next_object w)]
       \<and> snd (onContextChange sdk oldContext newContext w) =
           (case fst (createVisitor sdk (Some newContext) w) of
              Inl e \<Rightarrow> snd (createVisitor sdk (Some newContext) w)
            | Inr v \<Rightarrow> (snd (createVisitor sdk (Some newContext) w))\<lparr>this_visitor := Some v\<rparr>)
       \<and> (fst (onContextChange sdk oldContext newContext w) = Inr () \<longrightarrow>
            this_visitor (snd (onContextChange sdk oldContext newContext w)) =
              Some \<lparr>oid = next_object w,
                    props = snd (sdk_fetchFlags sdk (sdk_newVisitor sdk (visitor_args (Some newContext))))\<rparr>
            \<and> (sdk_status w \<noteq> SDK_NOT_INITIALIZED \<longrightarrow>
                 initialize sdk (Some newContext) w =
                   (Inr (), log_call (Emit Ready) (snd (onContextChange sdk oldContext newContext w)))))"
proof -
  from assms have g: "targetingKey newContext \<noteq> this_visitorId w"
    by (simp add: this_visitorId_def)
  have a: "calls_during w (snd (onContextChange sdk oldContext newContext w)) =
           [NewVisitor (next_object w)
              \<lparr>nv_hasConsented = context_hasConsented newContext,
               nv_isAuthenticated =
                 (case fsVisitorInfo newContext of None \<Rightarrow> None | Some i \<Rightarrow> vi_isAuthenticated i),
               nv_visitorId = Some key,
               nv_context = toPrimitiveRecord (userContext newContext)\<rparr>,
            FetchFlags (next_object w)]"
    using assms(2)
    by (simp add: onContextChange_world updateVisitorFlags_identity_calls [OF g] visitor_args_Some)
  have b: "snd (onContextChange sdk oldContext newContext w) =
           (case fst (createVisitor sdk (Some newContext) w) of
              Inl e \<Rightarrow> snd (createVisitor sdk (Some newContext) w)
            | Inr v \<Rightarrow> (snd (createVisitor sdk (Some newContext) w))\<lparr>this_visitor := Some v\<rparr>)"
    by (simp add: onContextChange_world updateVisitorFlags_identity [OF g])
  have c: "this_visitor (snd (onContextChange sdk oldContext newContext w)) =
              Some \<lparr>oid = next_object w,
                    props = snd (sdk_fetchFlags sdk (sdk_newVisitor sdk (visitor_args (Some newContext))))\<rparr>
            \<and> (sdk_status w \<noteq> SDK_NOT_INITIALIZED \<longrightarrow>
                 initialize sdk (Some newContext) w =
                   (Inr (), log_call (Emit Ready) (snd (onContextChange sdk oldContext newContext w))))"
    if ok: "fst (onContextChange sdk oldContext newContext w) = Inr ()"
  proof -
    from ok obtain r where "fst (updateVisitorFlags sdk newContext w) = Inr r"
      by (auto simp: onContextChange_resolved)
    then obtain vis where cv: "fst (createVisitor sdk (Some newContext) w) = Inr vis"
      by (cases "fst (createVisitor sdk (Some newContext) w)")
         (auto simp: updateVisitorFlags_identity_result [OF g])
    with createVisitor_result [of sdk "Some newContext" w]
    have vis: "vis = \<lparr>oid = next_object w,
                    props = snd (sdk_fetchFlags sdk (sdk_newVisitor sdk (visitor_args (Some newContext))))\<rparr>"
      by (auto split: option.splits)
    have tv: "this_visitor (snd (onContextChange sdk oldContext newContext w)) = Some vis"
      by (simp add: b cv)
    have ini: "initialize sdk (Some newContext) w =
                   (Inr (), log_call (Emit Ready) (snd (onContextChange sdk oldContext newContext w)))"
      if st: "sdk_status w \<noteq> SDK_NOT_INITIALIZED"
    proof -
      from st have "initializeSDK sdk w = (Inr (), w)" by (simp add: initializeSDK_def)
      with cv show ?thesis
        by (cases "createVisitor sdk (Some newContext) w") (simp add: initialize_def b)
    qed
    from tv vis ini show ?thesis by simp
  qed
  from a b c show ?thesis by blast
qed

text \<open>
  The other cases, for every SDK and state. A call to \<open>initialize\<close> that rejects, because
  \<open>Flagship.start\<close> or the flag fetch rejected, emits no \<open>Ready\<close> event and leaves
  \<open>_visitor\<close> as it was.
\<close>

lemma initialize_rejected:
  assumes "fst (initialize sdk ctx w) = Inl e"
  shows "count is_Ready (calls_during w (snd (initialize sdk ctx w))) = 0
       \<and> this_visitor (snd (initialize sdk ctx w)) = this_visitor w"
proof -
  obtain r1 w1 where i: "initializeSDK sdk w = (r1, w1)" by (cases "initializeSDK sdk w")
  obtain r2 w2 where c: "createVisitor sdk ctx w1 = (r2, w2)" by (cases "createVisitor sdk ctx w1")
  have w1: "w1 = snd (initializeSDK sdk w)" using i by simp
  have w2: "w2 = snd (createVisitor sdk ctx w1)" using c by simp
  have c1: "calls w1 = calls w @
      (if sdk_status w = SDK_NOT_INITIALIZED then [Start (envId w) (apiKey w) False] else [])"
    and v1: "this_visitor w1 = this_visitor w"
    unfolding w1 by (rule initializeSDK_world)+
  show ?thesis
  proof (cases r1)
    case (Inl e1)
    with i have "snd (initialize sdk ctx w) = w1" by (simp add: initialize_def)
    with c1 v1 show ?thesis by (simp add: calls_during_def count_def)
  next
    case (Inr u)
    with assms i c obtain e2 where r2: "r2 = Inl e2"
      by (cases r2) (auto simp: initialize_def)
    with Inr i c have "snd (initialize sdk ctx w) = w2" by (simp add: initialize_def)
    with c1 v1 show ?thesis
      unfolding w2 by (simp add: createVisitor_world calls_during_def count_def)
  qed
qed

text \<open>
  With no current visitor and no \<open>targetingKey\<close>, \<open>onContextChange\<close> resolves and changes
  nothing: no call is made and no visitor is stored.
\<close>

lemma onContextChange_no_visitor_no_key:
  assumes "this_visitor w = None" and "targetingKey c = None"
  shows "onContextChange sdk old c w = (Inr (), w)"
  using assms
  by (simp add: onContextChange_def updateVisitorFlags_def this_visitorId_def
      this_hasConsented_def call_setConsent_def call_updateContext_def Let_def
      split: option.splits)

text \<open>
  On the identity branch, a rejected fetch leaves \<open>_visitor\<close> as it was: the new visitor
  is not stored.
\<close>

lemma onContextChange_identity_rejected:
  assumes "targetingKey c \<noteq> this_visitorId w" and "fst (onContextChange sdk old c w) = Inl e"
  shows "this_visitor (snd (onContextChange sdk old c w)) = this_visitor w"
proof -
  from assms(2) have "\<exists>e'. fst (createVisitor sdk (Some c) w) = Inl e'"
    by (cases "createVisitor sdk (Some c) w"; cases "fst (createVisitor sdk (Some c) w)")
       (auto simp: onContextChange_def updateVisitorFlags_def assms(1) split: sum.splits)
  then show ?thesis
    by (auto simp: onContextChange_world updateVisitorFlags_identity [OF assms(1)] createVisitor_world)
qed

theorem identity_change_creates_and_fetches_once_witness:
  "targetingKey user_456 \<noteq> this_visitorId world_123
   \<and> calls_during world_123 (snd (onContextChange mock_sdk user_123 user_456 world_123)) =
        [NewVisitor 1 (visitor_args (Some user_456)), FetchFlags 1]
   \<and> count is_NewVisitor (calls_during world_123 (snd (onContextChange mock_sdk user_123 user_456 world_123))) = 1
   \<and> count is_FetchFlags (calls_during world_123 (snd (onContextChange mock_sdk user_123 user_456 world_123))) = 1
   \<and> count is_UpdateContext (calls_during world_123 (snd (onContextChange mock_sdk user_123 user_456 world_123))) = 0
   \<and> count is_SetConsent (calls_during world_123 (snd (onContextChange mock_sdk user_123 user_456 world_123))) = 0"
proof -
  have h: "targetingKey user_456 \<noteq> this_visitorId world_123"
    by (simp add: user_456_def this_visitorId_def world_123_def visitor_123_def)
  have n: "next_object world_123 = 1" by (simp add: world_123_def)
  show ?thesis
    using h identity_change_creates_and_fetches_once [OF h, of mock_sdk user_123]
    by (simp add: n count_def)
qed

theorem same_identity_keeps_handle_witness:
  "targetingKey user_123 = this_visitorId world_123
   \<and> map_option oid (this_visitor (snd (onContextChange mock_sdk user_123 user_123 world_123))) = Some 0
   \<and> count is_NewVisitor (calls_during world_123 (snd (onContextChange mock_sdk user_123 user_123 world_123))) = 0
   \<and> next_object (snd (onContextChange mock_sdk user_123 user_123 world_123)) = 1"
proof -
  have h: "targetingKey user_123 = this_visitorId world_123"
    by (simp add: user_123_def this_visitorId_def world_123_def visitor_123_def)
  have n: "next_object world_123 = 1" "map_option oid (this_visitor world_123) = Some 0"
    by (simp_all add: world_123_def visitor_123_def)
  show ?thesis
    using h same_identity_keeps_handle [OF h, of mock_sdk user_123]
    by (simp add: n count_def)
qed

theorem consent_set_once_before_patch_witness:
  "this_visitor world_123 = Some visitor_123
   \<and> targetingKey user_123_no_consent = Some (visitorId (props visitor_123))
   \<and> context_hasConsented user_123_no_consent = Some False
   \<and> False \<noteq> hasConsented (props visitor_123)
   \<and> (\<exists>rest. calls_during world_123 (snd (onContextChange mock_sdk user_123 user_123_no_consent world_123)) =
          SetConsent 0 False # UpdateContext 0 (toPrimitiveRecord (userContext user_123_no_consent)) # rest
          \<and> count is_SetConsent rest = 0)
   \<and> count is_SetConsent
        (calls_during world_123 (snd (onContextChange mock_sdk user_123 user_123_no_consent world_123))) = 1
   \<and> targetingKey user_123 = Some (visitorId (props visitor_123))
   \<and> context_hasConsented user_123 = Some (hasConsented (props visitor_123))
   \<and> (\<exists>rest. calls_during world_123 (snd (onContextChange mock_sdk user_123 user_123 world_123)) =
          UpdateContext 0 (toPrimitiveRecord (userContext user_123)) # rest)
   \<and> count is_SetConsent
        (calls_during world_123 (snd (onContextChange mock_sdk user_123 user_123 world_123))) = 0"
proof -
  have v: "this_visitor world_123 = Some visitor_123" by (simp add: world_123_def)
  have k1: "targetingKey user_123_no_consent = Some (visitorId (props visitor_123))"
    and k2: "targetingKey user_123 = Some (visitorId (props visitor_123))"
    by (simp_all add: user_123_no_consent_def user_123_def visitor_123_def)
  have c1: "context_hasConsented user_123_no_consent = Some False \<and> False \<noteq> hasConsented (props visitor_123)"
    by (simp add: context_hasConsented_def user_123_no_consent_def visitor_123_def)
  have c2: "context_hasConsented user_123 = Some (hasConsented (props visitor_123))"
    by (simp add: context_hasConsented_def user_123_def visitor_123_def)
  have o: "oid visitor_123 = 0" by (simp add: visitor_123_def)
  note t1 = consent_set_once_before_patch [OF v k1, of mock_sdk user_123]
  note t2 = consent_set_once_before_patch [OF v k2, of mock_sdk user_123]
  have a: "(\<exists>rest. calls_during world_123 (snd (onContextChange mock_sdk user_123 user_123_no_consent world_123)) =
          SetConsent 0 False # UpdateContext 0 (toPrimitiveRecord (userContext user_123_no_consent)) # rest
          \<and> count is_SetConsent rest = 0)
     \<and> count is_SetConsent
        (calls_during world_123 (snd (onContextChange mock_sdk user_123 user_123_no_consent world_123))) = 1"
    using t1 [THEN conjunct1, THEN spec, of False, THEN mp, OF c1] unfolding o .
  have b: "(\<exists>rest. calls_during world_123 (snd (onContextChange mock_sdk user_123 user_123 world_123)) =
          UpdateContext 0 (toPrimitiveRecord (userContext user_123)) # rest)
     \<and> count is_SetConsent
        (calls_during world_123 (snd (onContextChange mock_sdk user_123 user_123 world_123))) = 0"
    using t2 [THEN conjunct2, THEN mp, OF disjI2, OF c2] unfolding o .
  from v k1 k2 c1 c2 a b show ?thesis by (intro conjI) (simp_all only: simp_thms)
qed

lemma initialize_mock_resolves:
  "fst (initialize mock_sdk ctx world0) = Inr ()"
  by (simp add: initialize_def initializeSDK_def createVisitor_def await_fetchFlags_def log_call_def
      mock_sdk_def world0_def Let_def)

theorem initialize_resolved_emits_ready_once_witness:
  "fst (initialize mock_sdk (Some user_123) world0) = Inr ()
   \<and> calls_during world0 (snd (initialize mock_sdk (Some user_123) world0)) =
        [Start ''env-test-id'' ''api-test-key'' False,
         NewVisitor 0 (visitor_args (Some user_123)), FetchFlags 0, Emit Ready]
   \<and> count is_Ready (calls_during world0 (snd (initialize mock_sdk (Some user_123) world0))) = 1
   \<and> map_option oid (this_visitor (snd (initialize mock_sdk (Some user_123) world0))) = Some 0
   \<and> fst (initialize mock_sdk None world0) = Inr ()
   \<and> count is_Ready (calls_during world0 (snd (initialize mock_sdk None world0))) = 1"
proof -
  have h1: "fst (initialize mock_sdk (Some user_123) world0) = Inr ()"
    and h2: "fst (initialize mock_sdk None world0) = Inr ()"
    by (rule initialize_mock_resolves)+
  have w: "sdk_status world0 = SDK_NOT_INITIALIZED" "envId world0 = ''env-test-id''"
    "apiKey world0 = ''api-test-key''" "next_object world0 = 0"
    by (simp_all add: world0_def)
  show ?thesis
    using h1 h2 initialize_resolved_emits_ready_once [OF h1] initialize_resolved_emits_ready_once [OF h2]
    by (simp add: w count_def)
qed

text \<open>
  C3 as stated fails: when the flag fetch rejects, \<open>initialize\<close> rejects before the
  \<open>emit\<close>, no \<open>Ready\<close> event is emitted and \<open>_visitor\<close> stays as it was.
\<close>

theorem initialize_rejected_emits_nothing:
  "fst (initialize rejecting_sdk (Some user_123) world0) = Inl (Rejection ''fetch failed'')
   \<and> count is_Ready (calls_during world0 (snd (initialize rejecting_sdk (Some user_123) world0))) = 0
   \<and> this_visitor (snd (initialize rejecting_sdk (Some user_123) world0)) = None"
  by (simp add: initialize_def initializeSDK_def createVisitor_def await_fetchFlags_def log_call_def
      rejecting_sdk_def mock_sdk_def world0_def Let_def calls_during_def count_def)

theorem first_context_with_key_creates_handle_witness:
  "this_visitor started_world = None
   \<and> targetingKey user_123 = Some ''user-123''
   \<and> fst (onContextChange mock_sdk empty_context user_123 started_world) = Inr ()
   \<and> sdk_status started_world \<noteq> SDK_NOT_INITIALIZED
   \<and> calls_during started_world (snd (onContextChange mock_sdk empty_context user_123 started_world)) =
        [NewVisitor 0
           \<lparr>nv_hasConsented = Some True, nv_isAuthenticated = None, nv_visitorId = Some ''user-123'',
            nv_context = toPrimitiveRecord [(''age'', CNum (Finite 30))]\<rparr>,
         FetchFlags 0]
   \<and> map_option oid (this_visitor (snd (onContextChange mock_sdk empty_context user_123 started_world))) = Some 0
   \<and> initialize mock_sdk (Some user_123) started_world =
        (Inr (), log_call (Emit Ready) (snd (onContextChange mock_sdk empty_context user_123 started_world)))"
proof -
  have v: "this_visitor started_world = None" by (simp add: started_world_def world0_def)
  have k: "targetingKey user_123 = Some ''user-123''" by (simp add: user_123_def)
  have r: "fst (onContextChange mock_sdk empty_context user_123 started_world) = Inr ()"
    by (simp add: onContextChange_def updateVisitorFlags_def this_visitorId_def createVisitor_def
        await_fetchFlags_def log_call_def mock_sdk_def started_world_def world0_def user_123_def Let_def)
  have st: "sdk_status started_world \<noteq> SDK_NOT_INITIALIZED" by (simp add: started_world_def world0_def)
  have e: "next_object started_world = 0" "context_hasConsented user_123 = Some True"
    "fsVisitorInfo user_123 = Some \<lparr>vi_hasConsented = Some True, vi_isAuthenticated = None\<rparr>"
    "userContext user_123 = [(''age'', CNum (Finite 30))]"
    by (simp_all add: started_world_def world0_def user_123_def context_hasConsented_def)
  note t = first_context_with_key_creates_handle [OF v k, of mock_sdk empty_context]
  have a: "calls_during started_world (snd (onContextChange mock_sdk empty_context user_123 started_world)) =
        [NewVisitor 0
           \<lparr>nv_hasConsented = Some True, nv_isAuthenticated = None, nv_visitorId = Some ''user-123'',
            nv_context = toPrimitiveRecord [(''age'', CNum (Finite 30))]\<rparr>,
         FetchFlags 0]"
    using t [THEN conjunct1] by (simp add: e)
  note u = t [THEN conjunct2, THEN conjunct2, THEN mp, OF r]
  have b: "map_option oid (this_visitor (snd (onContextChange mock_sdk empty_context user_123 started_world))) = Some 0"
    using u [THEN conjunct1] by (simp add: e)
  have c: "initialize mock_sdk (Some user_123) started_world =
        (Inr (), log_call (Emit Ready) (snd (onContextChange mock_sdk empty_context user_123 started_world)))"
    using u [THEN conjunct2, THEN mp, OF st] .
  from v k r st a b c show ?thesis by (intro conjI)
qed

text \<open>
  C8 as stated fails: with no current visitor and a context without \<open>targetingKey\<close>,
  \<open>undefined != undefined\<close> is false, the identity branch is not taken, every call of the
  patch path is skipped by \<open>?.\<close>, and no visitor is created or stored. With a key and a
  rejecting fetch the visitor is created but not stored.
\<close>

theorem no_handle_no_key_creates_nothing:
  "this_visitor started_world = None
   \<and> targetingKey empty_context = None
   \<and> fst (onContextChange mock_sdk empty_context empty_context started_world) = Inr ()
   \<and> calls_during started_world (snd (onContextChange mock_sdk empty_context empty_context started_world)) = []
   \<and> this_visitor (snd (onContextChange mock_sdk empty_context empty_context started_world)) = None
   \<and> this_visitor (snd (onContextChange rejecting_sdk empty_context user_123 started_world)) = None"
  by (simp add: onContextChange_def updateVisitorFlags_def this_visitorId_def this_hasConsented_def
      context_hasConsented_def call_updateContext_def createVisitor_def await_fetchFlags_def
      log_call_def rejecting_sdk_def mock_sdk_def started_world_def world0_def empty_context_def
      user_123_def Let_def calls_during_def)

end
